theory Spec2Isabelle
  imports Main "HOL-Library.Word" "HOL-Library.Sublist"
begin

section \<open>Data model of the exporter (main.go)\<close>

text \<open>
  An \<open>error\<close> value of Go is represented by its message. A nil pointer dereference is the
  only panic of the code under study; a panic in any goroutine ends the process.
\<close>

type_synonym error = string

datatype fault = NilDereference

text \<open>\<open>prometheus.Desc\<close> and a constant gauge \<open>prometheus.Metric\<close>.\<close>

record desc =
  fqName :: string
  helpText :: string
  variableLabels :: "string list"

record metric =
  mdesc :: desc
  mvalue :: int
  labelValues :: "string list"

text \<open>
  The fields of \<open>rds/types.DBInstance\<close>, \<open>rds/types.Tag\<close> and
  \<open>account/types.Region\<close> that the code reads. All of them are pointers in the SDK, so
  each may be nil (\<open>None\<close>).
\<close>

record db_instance =
  DBInstanceIdentifier :: "string option"
  AvailabilityZone :: "string option"
  SecondaryAvailabilityZone :: "string option"
  StorageType :: "string option"
  DBInstanceClass :: "string option"
  Engine :: "string option"
  DBInstanceArn :: "string option"
  AllocatedStorage :: "32 word option"
  MaxAllocatedStorage :: "32 word option"
  Iops :: "32 word option"
  StorageThroughput :: "32 word option"

record tag =
  Key :: "string option"
  Value :: "string option"

record region =
  RegionName :: "string option"

record describe_output =
  DBInstances :: "db_instance list"
  Marker :: "string option"

text \<open>
  The provider API as the code consumes it. \<open>DescribeDBInstances\<close> and
  \<open>ListTagsForResource\<close> take the region of the client that issues the call, then the
  marker or the resource name.
\<close>

record provider =
  ListRegions :: "error + region list"
  DescribeDBInstances :: "string \<Rightarrow> string option \<Rightarrow> error + describe_output"
  ListTagsForResource :: "string \<Rightarrow> string option \<Rightarrow> error + tag list"

text \<open>
  The fields of \<open>RDSExporter\<close> that the code reads or writes, and the lines written by
  \<open>log.Printf\<close>. Times and durations are counted in nanoseconds.
\<close>

record exporter =
  cache :: "metric list"
  cacheTTL :: int
  lastUpdate :: int
  logs :: "string list"

text \<open>
  What a region collector does to the world outside its own locals: a log line, the
  statement \<open>e.cache = append(e.cache, metric)\<close>, and a send on the channel.
\<close>

datatype effect = Log string | CacheAppend metric | Send metric

section \<open>Package-level variables\<close>

definition baseLabels :: "string list" where
  "baseLabels = [''dimension_DBInstanceIdentifier'', ''az'', ''secondary_az'',
     ''storage_type'', ''region'', ''db_instance_class'', ''engine'']"

text \<open>
  The package variable \<open>tags\<close> is read by \<open>collectRegionMetrics\<close> and by the
  initialisers of the descriptors. The functions below take its value as the argument
  \<open>tgs\<close>; \<open>tags\<close> is the value main.go gives it.
\<close>

definition tags :: "string list" where
  "tags = [''purpose'', ''team'', ''region'', ''environment'']"

fun createDynLabels :: "string list \<Rightarrow> string list \<Rightarrow> string list" where
  "createDynLabels bl [] = bl"
| "createDynLabels bl (t # ts) = createDynLabels (bl @ [''tag_'' @ t]) ts"

definition dynLabels :: "string list \<Rightarrow> string list" where
  "dynLabels tgs = createDynLabels baseLabels tgs"

definition allocatedStorageDesc :: "string list \<Rightarrow> desc" where
  "allocatedStorageDesc tgs =
     \<lparr>fqName = ''aws_rds_allocated_storage'',
      helpText = ''Allocated storage for RDS instance in GB'',
      variableLabels = dynLabels tgs\<rparr>"

definition maxAllocatedStorageDesc :: "string list \<Rightarrow> desc" where
  "maxAllocatedStorageDesc tgs =
     \<lparr>fqName = ''aws_rds_max_allocated_storage'',
      helpText = ''Max allocated storage for RDS instance in GB'',
      variableLabels = dynLabels tgs\<rparr>"

definition iopsDesc :: "string list \<Rightarrow> desc" where
  "iopsDesc tgs =
     \<lparr>fqName = ''aws_rds_iops'',
      helpText = ''IOPS for RDS instance'',
      variableLabels = dynLabels tgs\<rparr>"

definition storageThroughputDesc :: "string list \<Rightarrow> desc" where
  "storageThroughputDesc tgs =
     \<lparr>fqName = ''aws_rds_storage_throughput'',
      helpText = ''Storage throughput for RDS instance'',
      variableLabels = dynLabels tgs\<rparr>"

section \<open>Processing one instance (the body of the inner loop of collectRegionMetrics)\<close>

definition deref :: "'a option \<Rightarrow> fault + 'a" where
  "deref p = (case p of None \<Rightarrow> Inl NilDereference | Some v \<Rightarrow> Inr v)"

definition seq :: "fault + 'a \<Rightarrow> ('a \<Rightarrow> fault + 'b) \<Rightarrow> fault + 'b" where
  "seq r f = (case r of Inl e \<Rightarrow> Inl e | Inr v \<Rightarrow> f v)"

text \<open>
  \<open>float64(x)\<close> of an \<open>int32\<close> is exact, so the gauge value is represented by the
  integer it equals.
\<close>

definition float64 :: "32 word \<Rightarrow> int" where
  "float64 w = sint w"

definition MustNewConstMetric :: "desc \<Rightarrow> int \<Rightarrow> string list \<Rightarrow> metric" where
  "MustNewConstMetric d v ls = \<lparr>mdesc = d, mvalue = v, labelValues = ls\<rparr>"

text \<open>Lines 141 to 152: the seven base label values, in the order of the appends.\<close>

definition baseLabelValues :: "string \<Rightarrow> db_instance \<Rightarrow> fault + string list" where
  "baseLabelValues regionName inst =
     seq (deref (DBInstanceIdentifier inst)) (\<lambda>ident.
     seq (deref (AvailabilityZone inst)) (\<lambda>az.
     seq (Inr (case SecondaryAvailabilityZone inst of Some s \<Rightarrow> s | None \<Rightarrow> [])) (\<lambda>az2.
     seq (deref (StorageType inst)) (\<lambda>st.
     seq (deref (DBInstanceClass inst)) (\<lambda>cls.
     seq (deref (Engine inst)) (\<lambda>eng.
       Inr [ident, az, az2, st, regionName, cls, eng]))))))"

text \<open>Lines 155 to 158: every configured key starts with the empty string.\<close>

fun initTagMap :: "string list \<Rightarrow> (string \<rightharpoonup> string) \<Rightarrow> (string \<rightharpoonup> string)" where
  "initTagMap [] m = m"
| "initTagMap (t # ts) m = initTagMap ts (m(t \<mapsto> []))"

text \<open>Lines 166 to 170: a later entry of the tag list overwrites an earlier one.\<close>

fun fillTagMap :: "string list \<Rightarrow> tag list \<Rightarrow> (string \<rightharpoonup> string) \<Rightarrow> (string \<rightharpoonup> string)" where
  "fillTagMap tgs [] m = m"
| "fillTagMap tgs (t # ts) m =
     fillTagMap tgs ts
       (case (Key t, Value t) of
          (Some k, Some v) \<Rightarrow> if k \<in> set tgs then m(k \<mapsto> v) else m
        | _ \<Rightarrow> m)"

text \<open>Reading a Go map at a missing key gives the zero value.\<close>

definition mapIndex :: "(string \<rightharpoonup> string) \<Rightarrow> string \<Rightarrow> string" where
  "mapIndex m k = (case m k of None \<Rightarrow> [] | Some v \<Rightarrow> v)"

text \<open>Lines 174 to 176.\<close>

fun appendTags :: "string list \<Rightarrow> (string \<rightharpoonup> string) \<Rightarrow> string list \<Rightarrow> string list" where
  "appendTags [] m labels = labels"
| "appendTags (t # ts) m labels = appendTags ts m (labels @ [mapIndex m t])"

text \<open>
  Lines 160 to 171. The log line of the failure branch dereferences \<open>DBInstanceArn\<close>.
\<close>

definition fetchTags ::
  "provider \<Rightarrow> string list \<Rightarrow> string \<Rightarrow> db_instance \<Rightarrow> (string \<rightharpoonup> string)
     \<Rightarrow> fault + (effect list \<times> (string \<rightharpoonup> string))" where
  "fetchTags P tgs regionName inst tagMap =
     (case ListTagsForResource P regionName (DBInstanceArn inst) of
        Inl err \<Rightarrow>
          seq (deref (DBInstanceArn inst)) (\<lambda>arn.
            Inr ([Log (''Error listing tags for RDS instance '' @ arn @ '' : '' @ err)], tagMap))
      | Inr tagList \<Rightarrow> Inr ([], fillTagMap tgs tagList tagMap))"

text \<open>One of the four blocks of lines 178 to 197.\<close>

definition emit :: "desc \<Rightarrow> 32 word option \<Rightarrow> string list \<Rightarrow> effect list" where
  "emit d field labels =
     (case field of
        None \<Rightarrow> []
      | Some v \<Rightarrow> (let m = MustNewConstMetric d (float64 v) labels in [CacheAppend m, Send m]))"

text \<open>Lines 178 to 197.\<close>

definition newMetrics :: "string list \<Rightarrow> db_instance \<Rightarrow> string list \<Rightarrow> effect list" where
  "newMetrics tgs inst labels =
     emit (allocatedStorageDesc tgs) (AllocatedStorage inst) labels
     @ emit (maxAllocatedStorageDesc tgs) (MaxAllocatedStorage inst) labels
     @ emit (iopsDesc tgs) (Iops inst) labels
     @ emit (storageThroughputDesc tgs) (StorageThroughput inst) labels"

definition instanceMetrics ::
  "provider \<Rightarrow> string list \<Rightarrow> string \<Rightarrow> db_instance \<Rightarrow> fault + effect list" where
  "instanceMetrics P tgs regionName inst =
     seq (baseLabelValues regionName inst) (\<lambda>labels0.
     seq (fetchTags P tgs regionName inst (initTagMap tgs Map.empty)) (\<lambda>(lg, tagMap).
       Inr (lg @ newMetrics tgs inst (appendTags tgs tagMap labels0))))"

text \<open>The metrics a trace sends on the channel, and the ones it appends to the cache.\<close>

fun sent :: "effect list \<Rightarrow> metric list" where
  "sent [] = []"
| "sent (Send m # es) = m # sent es"
| "sent (_ # es) = sent es"

fun appended :: "effect list \<Rightarrow> metric list" where
  "appended [] = []"
| "appended (CacheAppend m # es) = m # appended es"
| "appended (_ # es) = appended es"

fun logged :: "effect list \<Rightarrow> string list" where
  "logged [] = []"
| "logged (Log s # es) = s # logged es"
| "logged (_ # es) = logged es"

section \<open>collectRegionMetrics\<close>

text \<open>The loop of line 140 over the instances of one page; a panic ends it.\<close>

fun pageMetrics ::
  "provider \<Rightarrow> string list \<Rightarrow> string \<Rightarrow> db_instance list \<Rightarrow> fault + effect list" where
  "pageMetrics P tgs regionName [] = Inr []"
| "pageMetrics P tgs regionName (inst # rest) =
     seq (instanceMetrics P tgs regionName inst) (\<lambda>es.
     seq (pageMetrics P tgs regionName rest) (\<lambda>es'. Inr (es @ es')))"

text \<open>
  The loop of line 133, with the marker and the effects so far as its state. It ends when
  a call fails or a page carries no marker; a provider that always returns a marker keeps
  it running, and then the result is \<open>None\<close>.
\<close>

partial_function (option) collectPages ::
  "provider \<Rightarrow> string list \<Rightarrow> string \<Rightarrow> string option \<Rightarrow> effect list
     \<Rightarrow> (fault + effect list) option" where
  "collectPages P tgs regionName marker sofar =
     (case DescribeDBInstances P regionName marker of
        Inl err \<Rightarrow>
          Some (Inr (sofar @
            [Log (''Couldn't list RDS instances in region '' @ regionName @ '' : '' @ err)]))
      | Inr output \<Rightarrow>
          (case pageMetrics P tgs regionName (DBInstances output) of
             Inl f \<Rightarrow> Some (Inl f)
           | Inr es \<Rightarrow>
               (case Marker output of
                  None \<Rightarrow> Some (Inr (sofar @ es))
                | Some m \<Rightarrow> collectPages P tgs regionName (Some m) (sofar @ es))))"

declare collectPages.simps [code]

definition collectRegionMetrics ::
  "provider \<Rightarrow> string list \<Rightarrow> string \<Rightarrow> (fault + effect list) option" where
  "collectRegionMetrics P tgs regionName = collectPages P tgs regionName None []"

section \<open>updateCache\<close>

text \<open>
  The effects of the collectors on the exporter. Each statement of a collector is taken
  as one atomic step.
\<close>

fun perform :: "effect list \<Rightarrow> exporter \<Rightarrow> exporter" where
  "perform [] e = e"
| "perform (Log s # es) e = perform es (e\<lparr>logs := logs e @ [s]\<rparr>)"
| "perform (CacheAppend m # es) e = perform es (e\<lparr>cache := cache e @ [m]\<rparr>)"
| "perform (Send m # es) e = perform es e"

text \<open>Line 114: the region name is dereferenced when its goroutine is started.\<close>

fun regionNames :: "region list \<Rightarrow> fault + string list" where
  "regionNames [] = Inr []"
| "regionNames (r # rs) =
     seq (deref (RegionName r)) (\<lambda>n. seq (regionNames rs) (\<lambda>ns. Inr (n # ns)))"

text \<open>
  Lines 116 to 119: the channel is closed once every collector has returned. A panic in
  one of them ends the process; otherwise one that never returns keeps the channel open.
\<close>

fun joinWorkers :: "(fault + effect list) option list \<Rightarrow> (fault + effect list list) option" where
  "joinWorkers [] = Some (Inr [])"
| "joinWorkers (r # rs) =
     (case r of
        Some (Inl f) \<Rightarrow> Some (Inl f)
      | Some (Inr t) \<Rightarrow>
          (case joinWorkers rs of
             Some (Inr ts) \<Rightarrow> Some (Inr (t # ts))
           | other \<Rightarrow> other)
      | None \<Rightarrow>
          (case joinWorkers rs of
             Some (Inl f) \<Rightarrow> Some (Inl f)
           | _ \<Rightarrow> None))"

text \<open>
  The collectors run concurrently. A schedule names, step by step, the collector that
  moves next; an entry for a collector that has finished (or does not exist) is skipped,
  and when the schedule is used up the remaining collectors run one after the other.
\<close>

fun interleave :: "nat list \<Rightarrow> 'a list list \<Rightarrow> 'a list" where
  "interleave [] qs = concat qs"
| "interleave (i # sched) qs =
     (if i < length qs then
        (case qs ! i of
           [] \<Rightarrow> interleave sched qs
         | x # rest \<Rightarrow> x # interleave sched (qs[i := rest]))
      else interleave sched qs)"

text \<open>The steps of all collectors of one cycle, in the order the schedule gives them.\<close>

definition collectorsRun ::
  "provider \<Rightarrow> string list \<Rightarrow> nat list \<Rightarrow> string list \<Rightarrow> (fault + effect list) option" where
  "collectorsRun P tgs sched names =
     (case joinWorkers (map (collectRegionMetrics P tgs) names) of
        None \<Rightarrow> None
      | Some (Inl f) \<Rightarrow> Some (Inl f)
      | Some (Inr traces) \<Rightarrow> Some (Inr (interleave sched traces)))"

text \<open>
  Lines 106 to 123: the exporter as the collectors leave it, and \<open>newCache\<close>, which
  receives the metrics in the order they were sent. The channel is drained while the
  collectors run, so its buffer of 100 delays a send and never loses or reorders one.
\<close>

definition collectAll ::
  "provider \<Rightarrow> string list \<Rightarrow> nat list \<Rightarrow> string list \<Rightarrow> exporter
     \<Rightarrow> (fault + exporter \<times> metric list) option" where
  "collectAll P tgs sched names e =
     (case collectorsRun P tgs sched names of
        None \<Rightarrow> None
      | Some (Inl f) \<Rightarrow> Some (Inl f)
      | Some (Inr run) \<Rightarrow> Some (Inr (perform run e, sent run)))"

text \<open>
  The exporter while the cycle is in flight, after the first \<open>k\<close> steps of the
  collectors: no collector holds \<open>mu\<close>, so a scrape can read the exporter there.
\<close>

definition inFlight ::
  "provider \<Rightarrow> string list \<Rightarrow> nat list \<Rightarrow> string list \<Rightarrow> nat \<Rightarrow> exporter
     \<Rightarrow> (fault + exporter) option" where
  "inFlight P tgs sched names k e =
     (case collectorsRun P tgs sched names of
        None \<Rightarrow> None
      | Some (Inl f) \<Rightarrow> Some (Inl f)
      | Some (Inr run) \<Rightarrow> Some (Inr (perform (take k run) e)))"

text \<open>
  The body of \<open>updateCache\<close> between \<open>updateMu.Lock()\<close> and the deferred
  \<open>Unlock\<close>; \<open>now\<close> is the value of \<open>time.Now()\<close> at line 126.
\<close>

definition updateCache ::
  "provider \<Rightarrow> string list \<Rightarrow> nat list \<Rightarrow> int \<Rightarrow> exporter \<Rightarrow> (fault + exporter) option" where
  "updateCache P tgs sched now e =
     (case ListRegions P of
        Inl err \<Rightarrow> Some (Inr (e\<lparr>logs := logs e @ [''Error listing regions: '' @ err]\<rparr>))
      | Inr regions \<Rightarrow>
          (case regionNames regions of
             Inl f \<Rightarrow> Some (Inl f)
           | Inr names \<Rightarrow>
               (case collectAll P tgs sched names e of
                  None \<Rightarrow> None
                | Some (Inl f) \<Rightarrow> Some (Inl f)
                | Some (Inr (e1, newCache)) \<Rightarrow>
                    Some (Inr (e1\<lparr>cache := newCache, lastUpdate := now\<rparr>)))))"

section \<open>Collect\<close>

text \<open>\<open>time.Since(t)\<close> at the instant \<open>now\<close>; a \<open>Duration\<close> saturates at 64 bits.\<close>

definition Since :: "int \<Rightarrow> int \<Rightarrow> int" where
  "Since now t = max (- (2 ^ 63)) (min (2 ^ 63 - 1) (now - t))"

text \<open>
  The method \<open>Collect\<close>, lines 82 to 91 (the name \<open>Collect\<close> is taken by set
  comprehension): the metrics sent to the scraper, and whether \<open>go e.updateCache()\<close>
  is started.
\<close>

definition Collect_rds :: "int \<Rightarrow> exporter \<Rightarrow> metric list \<times> bool" where
  "Collect_rds now e = (cache e, Since now (lastUpdate e) \<ge> cacheTTL e)"

section \<open>The refresh goroutines and updateMu\<close>

text \<open>
  \<open>time.Time{}\<close>, the first instant of year 1, in nanoseconds from the Unix epoch, and
  the exporter that \<open>main\<close> registers.
\<close>

definition zeroTime :: int where
  "zeroTime = - 62135596800000000000"

definition NewRDSExporter :: "int \<Rightarrow> exporter" where
  "NewRDSExporter ttl = \<lparr>cache = [], cacheTTL = ttl, lastUpdate = zeroTime, logs = []\<rparr>"

text \<open>
  A goroutine started by \<open>go e.updateCache()\<close> is blocked in \<open>updateMu.Lock()\<close>
  (line 95), or between \<open>Lock\<close> and the deferred \<open>Unlock\<close>, or it has returned.
\<close>

datatype pc = Waiting | Running | Finished

record system =
  exporterOf :: exporter
  updateMu :: bool
  routines :: "pc list"

text \<open>
  The steps of the process: a scrape at some instant; the return of \<open>Lock\<close> in
  goroutine \<open>i\<close>; the end of the cycle of goroutine \<open>i\<close>, whose collectors ran under
  a schedule and whose \<open>time.Now()\<close> gave an instant, with the deferred \<open>Unlock\<close>.
\<close>

datatype action = Scrape int | Lock nat | Unlock nat "nat list" int

text \<open>
  \<open>Lock\<close> returns only when the mutex is free; there is no \<open>TryLock\<close> in the code. A
  step that cannot happen gives \<open>None\<close>.
\<close>

fun fire :: "provider \<Rightarrow> string list \<Rightarrow> action \<Rightarrow> system \<Rightarrow> system option" where
  "fire P tgs (Scrape now) s =
     Some (if snd (Collect_rds now (exporterOf s))
           then s\<lparr>routines := routines s @ [Waiting]\<rparr>
           else s)"
| "fire P tgs (Lock i) s =
     (if i < length (routines s) \<and> routines s ! i = Waiting \<and> \<not> updateMu s
      then Some (s\<lparr>updateMu := True, routines := (routines s)[i := Running]\<rparr>)
      else None)"
| "fire P tgs (Unlock i sched now) s =
     (if i < length (routines s) \<and> routines s ! i = Running
      then (case updateCache P tgs sched now (exporterOf s) of
              Some (Inr e') \<Rightarrow>
                Some (s\<lparr>exporterOf := e', updateMu := False,
                        routines := (routines s)[i := Finished]\<rparr>)
            | _ \<Rightarrow> None)
      else None)"

fun execute :: "provider \<Rightarrow> string list \<Rightarrow> action list \<Rightarrow> system \<Rightarrow> system option" where
  "execute P tgs [] s = Some s"
| "execute P tgs (a # as) s =
     (case fire P tgs a s of None \<Rightarrow> None | Some s' \<Rightarrow> execute P tgs as s')"

definition initial :: "int \<Rightarrow> system" where
  "initial ttl = \<lparr>exporterOf = NewRDSExporter ttl, updateMu = False, routines = []\<rparr>"

text \<open>The number of goroutines between \<open>Lock\<close> and \<open>Unlock\<close>.\<close>

definition running :: "system \<Rightarrow> nat" where
  "running s = length (filter (\<lambda>p. p = Running) (routines s))"

definition exclusive :: "system \<Rightarrow> bool" where
  "exclusive s \<longleftrightarrow> running s = (if updateMu s then 1 else 0)"

section \<open>Example inputs\<close>

definition db1 :: "string option \<Rightarrow> db_instance" where
  "db1 arn =
     \<lparr>DBInstanceIdentifier = Some ''db-1'',
      AvailabilityZone = Some ''us-east-1a'',
      SecondaryAvailabilityZone = None,
      StorageType = Some ''gp3'',
      DBInstanceClass = Some ''db.t3.micro'',
      Engine = Some ''postgres'',
      DBInstanceArn = arn,
      AllocatedStorage = Some 100,
      MaxAllocatedStorage = None,
      Iops = Some 3000,
      StorageThroughput = None\<rparr>"

definition exampleProvider :: provider where
  "exampleProvider =
     \<lparr>ListRegions = Inr [\<lparr>RegionName = Some ''us-east-1''\<rparr>],
      DescribeDBInstances =
        (\<lambda>r m. Inr \<lparr>DBInstances = [db1 (Some ''arn:db-1'')], Marker = None\<rparr>),
      ListTagsForResource = (\<lambda>r a. Inr [\<lparr>Key = Some ''team'', Value = Some ''core''\<rparr>])\<rparr>"

definition failingTagsProvider :: provider where
  "failingTagsProvider = exampleProvider\<lparr>ListTagsForResource := (\<lambda>r a. Inl ''throttled'')\<rparr>"

definition failingRegionsProvider :: provider where
  "failingRegionsProvider = exampleProvider\<lparr>ListRegions := Inl ''access denied''\<rparr>"

definition oldMetric :: metric where
  "oldMetric = \<lparr>mdesc = iopsDesc tags, mvalue = 1000, labelValues = [''db-0'', ''eu-west-1a'', [],
     ''gp2'', ''eu-west-1'', ''db.t3.small'', ''mysql'', [], [], [], []]\<rparr>"

definition servingExporter :: exporter where
  "servingExporter = \<lparr>cache = [oldMetric], cacheTTL = 3600000000000, lastUpdate = 0, logs = []\<rparr>"

definition db2 :: db_instance where
  "db2 =
     \<lparr>DBInstanceIdentifier = Some ''db-2'',
      AvailabilityZone = Some ''eu-west-1b'',
      SecondaryAvailabilityZone = Some ''eu-west-1c'',
      StorageType = Some ''io1'',
      DBInstanceClass = Some ''db.m5.large'',
      Engine = Some ''mysql'',
      DBInstanceArn = Some ''arn:db-2'',
      AllocatedStorage = Some 200,
      MaxAllocatedStorage = Some 1000,
      Iops = None,
      StorageThroughput = None\<rparr>"

text \<open>
  Two regions: the second page of \<open>us-east-1\<close> fails, \<open>eu-west-1\<close> has one page. The
  tag list has a key that is not configured and a key that differs in case only.
\<close>

definition twoRegionProvider :: provider where
  "twoRegionProvider =
     \<lparr>ListRegions = Inr [\<lparr>RegionName = Some ''us-east-1''\<rparr>, \<lparr>RegionName = Some ''eu-west-1''\<rparr>],
      DescribeDBInstances =
        (\<lambda>r m. if r = ''us-east-1''
           then (if m = None
                 then Inr \<lparr>DBInstances = [db1 (Some ''arn:db-1'')], Marker = Some ''page-2''\<rparr>
                 else Inl ''timeout'')
           else Inr \<lparr>DBInstances = [db2], Marker = None\<rparr>),
      ListTagsForResource =
        (\<lambda>r a. Inr [\<lparr>Key = Some ''owner'', Value = Some ''bob''\<rparr>,
                     \<lparr>Key = Some ''team'', Value = Some ''core''\<rparr>,
                     \<lparr>Key = Some ''Team'', Value = Some ''other''\<rparr>])\<rparr>"

text \<open>Every region fails at its first page.\<close>

definition failingPagesProvider :: provider where
  "failingPagesProvider = twoRegionProvider\<lparr>DescribeDBInstances := (\<lambda>r m. Inl ''timeout'')\<rparr>"

text \<open>The samples of the two instances under the tag keys of main.go.\<close>

definition db1Labels :: "string list" where
  "db1Labels = [''db-1'', ''us-east-1a'', [], ''gp3'', ''us-east-1'', ''db.t3.micro'',
     ''postgres'', [], ''core'', [], []]"

definition db1Allocated :: metric where
  "db1Allocated = \<lparr>mdesc = allocatedStorageDesc tags, mvalue = 100, labelValues = db1Labels\<rparr>"

definition db1Iops :: metric where
  "db1Iops = \<lparr>mdesc = iopsDesc tags, mvalue = 3000, labelValues = db1Labels\<rparr>"

definition db2Labels :: "string list" where
  "db2Labels = [''db-2'', ''eu-west-1b'', ''eu-west-1c'', ''io1'', ''eu-west-1'', ''db.m5.large'',
     ''mysql'', [], ''core'', [], []]"

definition db2Allocated :: metric where
  "db2Allocated = \<lparr>mdesc = allocatedStorageDesc tags, mvalue = 200, labelValues = db2Labels\<rparr>"

definition db2MaxAllocated :: metric where
  "db2MaxAllocated = \<lparr>mdesc = maxAllocatedStorageDesc tags, mvalue = 1000, labelValues = db2Labels\<rparr>"

section \<open>Chains of pages\<close>

text \<open>
  \<open>pageChain P r marker pgs\<close>: starting with \<open>marker\<close>, the successive calls of
  \<open>DescribeDBInstances\<close> in region \<open>r\<close> return the pages \<open>pgs\<close>, each with a
  continuation marker; \<open>lastMarker marker pgs\<close> is the marker of the call after them.
\<close>

fun pageChain :: "provider \<Rightarrow> string \<Rightarrow> string option \<Rightarrow> describe_output list \<Rightarrow> bool" where
  "pageChain P r marker [] = True"
| "pageChain P r marker (pg # pgs) =
     (DescribeDBInstances P r marker = Inr pg \<and> Marker pg \<noteq> None
      \<and> pageChain P r (Marker pg) pgs)"

fun lastMarker :: "string option \<Rightarrow> describe_output list \<Rightarrow> string option" where
  "lastMarker marker [] = marker"
| "lastMarker marker (pg # pgs) = lastMarker (Marker pg) pgs"

section \<open>The tag matching of the specification\<close>

text \<open>
  The value of a configured key \<open>k\<close> on an instance with the tag list \<open>tagList\<close>:
  keys are compared by equality, the last tag that has the key and a value gives the
  value, and the value is the empty string when no tag has the key.
\<close>

definition tagSlot :: "tag list \<Rightarrow> string \<Rightarrow> string" where
  "tagSlot tagList k =
     (case List.map_filter (\<lambda>t. if Key t = Some k then Value t else None) tagList of
        [] \<Rightarrow> []
      | vs \<Rightarrow> last vs)"

text \<open>The values of the samples of descriptor \<open>d\<close> that a trace sends.\<close>

definition samplesOf :: "desc \<Rightarrow> effect list \<Rightarrow> int list" where
  "samplesOf d es = map mvalue (filter (\<lambda>m. mdesc m = d) (sent es))"

section \<open>Theorems\<close>

subsection \<open>Auxiliary facts about one instance\<close>

lemma appendTags_eq: "appendTags tgs m labels = labels @ map (mapIndex m) tgs"
  by (induction tgs arbitrary: labels) simp_all

lemma initTagMap_apply: "initTagMap tgs m k = (if k \<in> set tgs then Some [] else m k)"
  by (induction tgs arbitrary: m) auto

lemma fillTagMap_apply:
  "fillTagMap tgs tagList m k =
     (if k \<in> set tgs then
        (case List.map_filter (\<lambda>t. if Key t = Some k then Value t else None) tagList of
           [] \<Rightarrow> m k
         | vs \<Rightarrow> Some (last vs))
      else m k)"
proof (induction tagList arbitrary: m)
  case Nil
  show ?case by (simp add: List.map_filter_simps)
next
  case (Cons t ts)
  show ?case
    by (cases "Key t"; cases "Value t")
       (auto simp: Cons.IH List.map_filter_simps split: list.splits)
qed

lemma mapIndex_fetched:
  "k \<in> set tgs \<Longrightarrow>
     mapIndex (fillTagMap tgs tagList (initTagMap tgs Map.empty)) k = tagSlot tagList k"
  by (simp add: mapIndex_def fillTagMap_apply initTagMap_apply tagSlot_def split: list.splits)

lemma mapIndex_init: "k \<in> set tgs \<Longrightarrow> mapIndex (initTagMap tgs Map.empty) k = []"
  by (simp add: mapIndex_def initTagMap_apply)

lemma baseLabelValues_Inr:
  "baseLabelValues r inst = Inr base \<longleftrightarrow>
     (\<exists>ident az st cls eng.
        DBInstanceIdentifier inst = Some ident \<and> AvailabilityZone inst = Some az
        \<and> StorageType inst = Some st \<and> DBInstanceClass inst = Some cls
        \<and> Engine inst = Some eng
        \<and> base = [ident, az, (case SecondaryAvailabilityZone inst of Some s \<Rightarrow> s | None \<Rightarrow> []),
             st, r, cls, eng])"
  by (auto simp: baseLabelValues_def seq_def deref_def split: option.splits)

lemma instanceMetrics_fetch_ok:
  assumes "baseLabelValues r inst = Inr base"
    and "ListTagsForResource P r (DBInstanceArn inst) = Inr tagList"
  shows "instanceMetrics P tgs r inst =
    Inr (newMetrics tgs inst (base @ map (tagSlot tagList) tgs))"
  using assms
  by (simp add: instanceMetrics_def seq_def fetchTags_def appendTags_eq mapIndex_fetched
      cong: map_cong)

lemma instanceMetrics_fetch_failed:
  assumes "baseLabelValues r inst = Inr base"
    and "ListTagsForResource P r (DBInstanceArn inst) = Inl err"
    and "DBInstanceArn inst = Some arn"
  shows "instanceMetrics P tgs r inst =
    Inr (Log (''Error listing tags for RDS instance '' @ arn @ '' : '' @ err)
         # newMetrics tgs inst (base @ replicate (length tgs) []))"
  using assms
  by (simp add: instanceMetrics_def seq_def fetchTags_def appendTags_eq deref_def
      mapIndex_init map_replicate_const[symmetric] cong: map_cong)

lemma instanceMetrics_cases:
  assumes "instanceMetrics P tgs r inst = Inr es"
  obtains (ok) base tagList where "baseLabelValues r inst = Inr base"
      "ListTagsForResource P r (DBInstanceArn inst) = Inr tagList"
      "es = newMetrics tgs inst (base @ map (tagSlot tagList) tgs)"
  | (failed) base err arn where "baseLabelValues r inst = Inr base"
      "ListTagsForResource P r (DBInstanceArn inst) = Inl err" "DBInstanceArn inst = Some arn"
      "es = Log (''Error listing tags for RDS instance '' @ arn @ '' : '' @ err)
         # newMetrics tgs inst (base @ replicate (length tgs) [])"
proof (cases "baseLabelValues r inst")
  case (Inl f)
  with assms show ?thesis by (simp add: instanceMetrics_def seq_def)
next
  case base: (Inr base)
  show ?thesis
  proof (cases "ListTagsForResource P r (DBInstanceArn inst)")
    case (Inr tagList)
    with instanceMetrics_fetch_ok[OF base Inr, of tgs] assms ok base
    show ?thesis by simp
  next
    case (Inl err)
    show ?thesis
    proof (cases "DBInstanceArn inst")
      case None
      with assms Inl base show ?thesis
        by (simp add: instanceMetrics_def seq_def fetchTags_def deref_def)
    next
      case (Some arn)
      with instanceMetrics_fetch_failed[OF base Inl Some, of tgs] assms failed base Inl
      show ?thesis by simp
    qed
  qed
qed

text \<open>
  An instance makes the collector panic exactly when a field that the code dereferences
  is nil: one of the five label fields, or the resource name when the tag listing fails.
\<close>

lemma instanceMetrics_panics:
  "(\<exists>f. instanceMetrics P tgs r inst = Inl f) \<longleftrightarrow>
     DBInstanceIdentifier inst = None \<or> AvailabilityZone inst = None \<or> StorageType inst = None
     \<or> DBInstanceClass inst = None \<or> Engine inst = None
     \<or> ((\<exists>err. ListTagsForResource P r (DBInstanceArn inst) = Inl err) \<and> DBInstanceArn inst = None)"
  by (auto simp: instanceMetrics_def baseLabelValues_def fetchTags_def seq_def deref_def
      split: option.splits sum.splits)

lemma sent_append: "sent (xs @ ys) = sent xs @ sent ys"
  by (induction xs rule: sent.induct) simp_all

lemma sent_emit:
  "sent (emit d f labels) =
     (case f of None \<Rightarrow> [] | Some v \<Rightarrow> [\<lparr>mdesc = d, mvalue = sint v, labelValues = labels\<rparr>])"
  by (simp add: emit_def MustNewConstMetric_def float64_def Let_def split: option.splits)

lemma length_createDynLabels: "length (createDynLabels bl tgs) = length bl + length tgs"
  by (induction tgs arbitrary: bl) simp_all


lemma sent_newMetrics:
  "sent (newMetrics tgs inst labels) =
     (case AllocatedStorage inst of None \<Rightarrow> []
      | Some v \<Rightarrow> [\<lparr>mdesc = allocatedStorageDesc tgs, mvalue = sint v, labelValues = labels\<rparr>])
     @ (case MaxAllocatedStorage inst of None \<Rightarrow> []
      | Some v \<Rightarrow> [\<lparr>mdesc = maxAllocatedStorageDesc tgs, mvalue = sint v, labelValues = labels\<rparr>])
     @ (case Iops inst of None \<Rightarrow> []
      | Some v \<Rightarrow> [\<lparr>mdesc = iopsDesc tgs, mvalue = sint v, labelValues = labels\<rparr>])
     @ (case StorageThroughput inst of None \<Rightarrow> []
      | Some v \<Rightarrow> [\<lparr>mdesc = storageThroughputDesc tgs, mvalue = sint v, labelValues = labels\<rparr>])"
  by (simp add: newMetrics_def sent_append sent_emit)

lemma newMetrics_labels:
  "m \<in> set (sent (newMetrics tgs inst labels)) \<Longrightarrow>
     labelValues m = labels \<and> variableLabels (mdesc m) = dynLabels tgs"
  by (auto simp: sent_newMetrics allocatedStorageDesc_def maxAllocatedStorageDesc_def iopsDesc_def
      storageThroughputDesc_def split: option.splits)

lemma length_dynLabels: "length (dynLabels tgs) = length baseLabels + length tgs"
  by (simp add: dynLabels_def length_createDynLabels)

lemma instanceMetrics_sent:
  assumes "instanceMetrics P tgs r inst = Inr es"
  shows "\<exists>base slots. baseLabelValues r inst = Inr base \<and> length slots = length tgs
    \<and> sent es = sent (newMetrics tgs inst (base @ slots))"
  using assms
proof (cases rule: instanceMetrics_cases)
  case (ok base tagList)
  then have "length (map (tagSlot tagList) tgs) = length tgs
    \<and> sent es = sent (newMetrics tgs inst (base @ map (tagSlot tagList) tgs))"
    by simp
  with ok(1) show ?thesis by blast
next
  case (failed base err arn)
  then have "length (replicate (length tgs) ([]::string)) = length tgs
    \<and> sent es = sent (newMetrics tgs inst (base @ replicate (length tgs) []))"
    by simp
  with failed(1) show ?thesis by blast
qed

lemma descs_distinct:
  "allocatedStorageDesc tgs \<noteq> maxAllocatedStorageDesc tgs"
  "allocatedStorageDesc tgs \<noteq> iopsDesc tgs"
  "allocatedStorageDesc tgs \<noteq> storageThroughputDesc tgs"
  "maxAllocatedStorageDesc tgs \<noteq> iopsDesc tgs"
  "maxAllocatedStorageDesc tgs \<noteq> storageThroughputDesc tgs"
  "iopsDesc tgs \<noteq> storageThroughputDesc tgs"
  by (simp_all add: allocatedStorageDesc_def maxAllocatedStorageDesc_def iopsDesc_def
      storageThroughputDesc_def)

lemma samplesOf_newMetrics:
  "samplesOf (allocatedStorageDesc tgs) (newMetrics tgs inst labels) = (case AllocatedStorage inst of None \<Rightarrow> [] | Some v \<Rightarrow> [sint v])"
  "samplesOf (maxAllocatedStorageDesc tgs) (newMetrics tgs inst labels) = (case MaxAllocatedStorage inst of None \<Rightarrow> [] | Some v \<Rightarrow> [sint v])"
  "samplesOf (iopsDesc tgs) (newMetrics tgs inst labels) = (case Iops inst of None \<Rightarrow> [] | Some v \<Rightarrow> [sint v])"
  "samplesOf (storageThroughputDesc tgs) (newMetrics tgs inst labels) = (case StorageThroughput inst of None \<Rightarrow> [] | Some v \<Rightarrow> [sint v])"
  using descs_distinct[of tgs] descs_distinct[of tgs, symmetric]
  by (simp_all add: samplesOf_def sent_newMetrics split: option.splits)


lemma mdesc_newMetrics:
  "m \<in> set (sent (newMetrics tgs inst labels)) \<Longrightarrow>
     mdesc m \<in> {allocatedStorageDesc tgs, maxAllocatedStorageDesc tgs, iopsDesc tgs,
       storageThroughputDesc tgs}"
  by (auto simp: sent_newMetrics split: option.splits)

lemma samplesOf_Log: "samplesOf d (Log s # es) = samplesOf d es"
  by (simp add: samplesOf_def)

subsection \<open>The worked example\<close>

text \<open>
  C9. The instance \<open>db-1\<close> of the worked example, collected in region \<open>us-east-1\<close>
  with the tag keys \<open>[team, env]\<close> and the tag list \<open>{team: core}\<close>, sends exactly two
  samples, allocated storage 100 and IOPS 3000 in this order, each with the label values
  \<open>[db-1, us-east-1a, "", gp3, us-east-1, db.t3.micro, postgres, core, ""]\<close>.
\<close>

theorem worked_example_db1:
  assumes "ListTagsForResource P ''us-east-1'' arn =
    Inr [\<lparr>Key = Some ''team'', Value = Some ''core''\<rparr>]"
  shows "map_sum id sent (instanceMetrics P [''team'', ''env''] ''us-east-1'' (db1 arn)) =
     Inr [\<lparr>mdesc = allocatedStorageDesc [''team'', ''env''], mvalue = 100,
           labelValues = [''db-1'', ''us-east-1a'', [], ''gp3'', ''us-east-1'',
             ''db.t3.micro'', ''postgres'', ''core'', []]\<rparr>,
          \<lparr>mdesc = iopsDesc [''team'', ''env''], mvalue = 3000,
           labelValues = [''db-1'', ''us-east-1a'', [], ''gp3'', ''us-east-1'',
             ''db.t3.micro'', ''postgres'', ''core'', []]\<rparr>]"
  using assms
  by (simp add: instanceMetrics_def baseLabelValues_def fetchTags_def seq_def deref_def db1_def
      newMetrics_def emit_def mapIndex_def float64_def MustNewConstMetric_def Let_def)

theorem worked_example_db1_witness:
  "ListTagsForResource exampleProvider ''us-east-1'' (Some ''arn:db-1'') =
     Inr [\<lparr>Key = Some ''team'', Value = Some ''core''\<rparr>] \<and>
   map_sum id sent
     (instanceMetrics exampleProvider [''team'', ''env''] ''us-east-1''
        (db1 (Some ''arn:db-1''))) =
     Inr [\<lparr>mdesc = allocatedStorageDesc [''team'', ''env''], mvalue = 100,
           labelValues = [''db-1'', ''us-east-1a'', [], ''gp3'', ''us-east-1'',
             ''db.t3.micro'', ''postgres'', ''core'', []]\<rparr>,
          \<lparr>mdesc = iopsDesc [''team'', ''env''], mvalue = 3000,
           labelValues = [''db-1'', ''us-east-1a'', [], ''gp3'', ''us-east-1'',
             ''db.t3.micro'', ''postgres'', ''core'', []]\<rparr>]"
  using worked_example_db1 [of exampleProvider "Some ''arn:db-1''"]
  by (simp add: exampleProvider_def)

subsection \<open>Enumeration failure\<close>

text \<open>
  C4. When the region enumeration fails, the cycle returns without a panic, the cache and
  the time of the last update are what they were before the cycle, and one line that
  carries the error is added to the log.
\<close>

theorem enumeration_failure_aborts_cycle:
  assumes "ListRegions P = Inl err"
  shows "\<exists>e'. updateCache P tgs sched now e = Some (Inr e')
     \<and> cache e' = cache e \<and> lastUpdate e' = lastUpdate e
     \<and> logs e' = logs e @ [''Error listing regions: '' @ err]"
  using assms by (simp add: updateCache_def)

theorem enumeration_failure_aborts_cycle_witness:
  "ListRegions failingRegionsProvider = Inl ''access denied'' \<and>
   (\<exists>e'. updateCache failingRegionsProvider tags [] 7200000000000 servingExporter = Some (Inr e')
     \<and> cache e' = [oldMetric] \<and> lastUpdate e' = 0
     \<and> logs e' = [''Error listing regions: access denied''])"
  using enumeration_failure_aborts_cycle [of failingRegionsProvider "''access denied''" tags "[]" 7200000000000 servingExporter]
  by (simp add: failingRegionsProvider_def servingExporter_def)

subsection \<open>Labels, samples and tags of one instance\<close>

text \<open>
  C5. Every sample sent for an instance that is processed carries the same label values:
  identifier, zone, secondary zone (empty when absent), storage type, region, class and
  engine, followed by one slot per tag key. Their number is the number of base labels plus
  the number of tag keys, which is the number of labels of the sample's descriptor.
\<close>

theorem label_tuple_arity_and_order:
  assumes "instanceMetrics P tgs regionName inst = Inr es"
  shows "\<exists>ident az st cls eng slots.
      DBInstanceIdentifier inst = Some ident \<and> AvailabilityZone inst = Some az
      \<and> StorageType inst = Some st \<and> DBInstanceClass inst = Some cls \<and> Engine inst = Some eng
      \<and> length slots = length tgs
      \<and> (\<forall>m \<in> set (sent es).
            labelValues m =
              [ident, az, (case SecondaryAvailabilityZone inst of Some s \<Rightarrow> s | None \<Rightarrow> []),
               st, regionName, cls, eng] @ slots
            \<and> length (labelValues m) = length baseLabels + length tgs
            \<and> length (labelValues m) = length (variableLabels (mdesc m)))"
proof -
  from assms obtain base slots where base: "baseLabelValues regionName inst = Inr base"
    and slots: "length slots = length tgs"
    and es: "sent es = sent (newMetrics tgs inst (base @ slots))"
    using instanceMetrics_sent by blast
  from base obtain ident az st cls eng where
    fields: "DBInstanceIdentifier inst = Some ident" "AvailabilityZone inst = Some az"
      "StorageType inst = Some st" "DBInstanceClass inst = Some cls" "Engine inst = Some eng"
    and b: "base = [ident, az, (case SecondaryAvailabilityZone inst of Some s \<Rightarrow> s | None \<Rightarrow> []),
             st, regionName, cls, eng]"
    unfolding baseLabelValues_Inr by blast
  have "length base = length baseLabels"
    by (simp add: b baseLabels_def)
  with es slots have "\<forall>m \<in> set (sent es).
      labelValues m = base @ slots
      \<and> length (labelValues m) = length baseLabels + length tgs
      \<and> length (labelValues m) = length (variableLabels (mdesc m))"
    by (auto dest!: newMetrics_labels simp: length_dynLabels)
  with fields slots b show ?thesis by blast
qed

theorem label_tuple_arity_and_order_witness:
  "instanceMetrics failingTagsProvider tags ''us-east-1'' (db1 (Some ''arn:db-1'')) =
     Inr (Log ''Error listing tags for RDS instance arn:db-1 : throttled''
       # newMetrics tags (db1 (Some ''arn:db-1''))
       [''db-1'', ''us-east-1a'', [], ''gp3'', ''us-east-1'', ''db.t3.micro'', ''postgres'',
        [], [], [], []])
   \<and> (\<exists>slots. length slots = length tags \<and>
        (\<forall>m \<in> set (sent (newMetrics tags (db1 (Some ''arn:db-1''))
             [''db-1'', ''us-east-1a'', [], ''gp3'', ''us-east-1'', ''db.t3.micro'',
              ''postgres'', [], [], [], []])).
           labelValues m = [''db-1'', ''us-east-1a'', [], ''gp3'', ''us-east-1'', ''db.t3.micro'',
              ''postgres''] @ slots
           \<and> length (labelValues m) = 11
           \<and> length (labelValues m) = length (variableLabels (mdesc m))))
   \<and> sent (newMetrics tags (db1 (Some ''arn:db-1''))
             [''db-1'', ''us-east-1a'', [], ''gp3'', ''us-east-1'', ''db.t3.micro'',
              ''postgres'', [], [], [], []]) \<noteq> []"
proof -
  have run: "instanceMetrics failingTagsProvider tags ''us-east-1'' (db1 (Some ''arn:db-1'')) =
     Inr (Log ''Error listing tags for RDS instance arn:db-1 : throttled''
       # newMetrics tags (db1 (Some ''arn:db-1''))
       [''db-1'', ''us-east-1a'', [], ''gp3'', ''us-east-1'', ''db.t3.micro'', ''postgres'',
        [], [], [], []])"
    by (simp add: instanceMetrics_def baseLabelValues_def fetchTags_def seq_def deref_def db1_def
        failingTagsProvider_def exampleProvider_def tags_def mapIndex_def)
  show ?thesis
    using label_tuple_arity_and_order [OF run] run
    by (simp add: db1_def sent_newMetrics baseLabels_def tags_def)
qed

text \<open>
  C6. An instance that is processed sends, for each of the four optional numeric fields,
  one sample with the value of the field when the field is populated and no sample when
  it is absent, and it sends no other sample.
\<close>

theorem one_sample_per_populated_field:
  assumes "instanceMetrics P tgs regionName inst = Inr es"
  shows "samplesOf (allocatedStorageDesc tgs) es =
        (case AllocatedStorage inst of None \<Rightarrow> [] | Some v \<Rightarrow> [sint v])
    \<and> samplesOf (maxAllocatedStorageDesc tgs) es =
        (case MaxAllocatedStorage inst of None \<Rightarrow> [] | Some v \<Rightarrow> [sint v])
    \<and> samplesOf (iopsDesc tgs) es =
        (case Iops inst of None \<Rightarrow> [] | Some v \<Rightarrow> [sint v])
    \<and> samplesOf (storageThroughputDesc tgs) es =
        (case StorageThroughput inst of None \<Rightarrow> [] | Some v \<Rightarrow> [sint v])
    \<and> (\<forall>m \<in> set (sent es).
          mdesc m \<in> {allocatedStorageDesc tgs, maxAllocatedStorageDesc tgs, iopsDesc tgs,
            storageThroughputDesc tgs})"
  using assms
proof (cases rule: instanceMetrics_cases)
  case (ok base tagList)
  then show ?thesis
    by (simp only: samplesOf_newMetrics) (blast dest: mdesc_newMetrics)
next
  case (failed base err arn)
  then show ?thesis
    by (simp only: samplesOf_newMetrics samplesOf_Log sent.simps) (blast dest: mdesc_newMetrics)
qed

theorem one_sample_per_populated_field_witness:
  "instanceMetrics exampleProvider tags ''us-east-1'' (db1 (Some ''arn:db-1'')) =
     Inr (newMetrics tags (db1 (Some ''arn:db-1''))
       [''db-1'', ''us-east-1a'', [], ''gp3'', ''us-east-1'', ''db.t3.micro'', ''postgres'',
        [], ''core'', [], []])
   \<and> samplesOf (allocatedStorageDesc tags)
        (newMetrics tags (db1 (Some ''arn:db-1''))
          [''db-1'', ''us-east-1a'', [], ''gp3'', ''us-east-1'', ''db.t3.micro'', ''postgres'',
           [], ''core'', [], []]) = [100]
   \<and> samplesOf (maxAllocatedStorageDesc tags)
        (newMetrics tags (db1 (Some ''arn:db-1''))
          [''db-1'', ''us-east-1a'', [], ''gp3'', ''us-east-1'', ''db.t3.micro'', ''postgres'',
           [], ''core'', [], []]) = []
   \<and> length (sent (newMetrics tags (db1 (Some ''arn:db-1''))
          [''db-1'', ''us-east-1a'', [], ''gp3'', ''us-east-1'', ''db.t3.micro'', ''postgres'',
           [], ''core'', [], []])) = 2"
proof -
  have run: "instanceMetrics exampleProvider tags ''us-east-1'' (db1 (Some ''arn:db-1'')) =
     Inr (newMetrics tags (db1 (Some ''arn:db-1''))
       [''db-1'', ''us-east-1a'', [], ''gp3'', ''us-east-1'', ''db.t3.micro'', ''postgres'',
        [], ''core'', [], []])"
    by (simp add: instanceMetrics_def baseLabelValues_def fetchTags_def seq_def deref_def db1_def
        exampleProvider_def tags_def mapIndex_def)
  show ?thesis
    using one_sample_per_populated_field [OF run] run
    by (simp add: db1_def sent_newMetrics)
qed

text \<open>
  C7. For an instance whose dereferenced fields are present: when the tag listing fails
  (and the resource name is present), the failure is logged and the instance is processed
  with the empty string in every tag slot; when it succeeds, the slot of each configured
  key holds \<open>tagSlot\<close> of the tag list, so keys are matched by equality, tags with other
  keys have no influence, and a configured key that no tag carries gives the empty string.
\<close>

theorem tag_fetch_failure_and_matching:
  assumes "baseLabelValues regionName inst = Inr base"
  shows "(\<forall>err arn.
        ListTagsForResource P regionName (DBInstanceArn inst) = Inl err
          \<and> DBInstanceArn inst = Some arn \<longrightarrow>
        instanceMetrics P tgs regionName inst =
          Inr (Log (''Error listing tags for RDS instance '' @ arn @ '' : '' @ err)
               # newMetrics tgs inst (base @ replicate (length tgs) [])))
    \<and> (\<forall>tagList.
        ListTagsForResource P regionName (DBInstanceArn inst) = Inr tagList \<longrightarrow>
        instanceMetrics P tgs regionName inst =
          Inr (newMetrics tgs inst (base @ map (tagSlot tagList) tgs)))"
  using assms instanceMetrics_fetch_failed instanceMetrics_fetch_ok by blast

theorem tag_fetch_failure_and_matching_witness:
  "baseLabelValues ''us-east-1'' (db1 (Some ''arn:db-1'')) =
     Inr [''db-1'', ''us-east-1a'', [], ''gp3'', ''us-east-1'', ''db.t3.micro'', ''postgres'']
   \<and> ListTagsForResource failingTagsProvider ''us-east-1'' (DBInstanceArn (db1 (Some ''arn:db-1'')))
       = Inl ''throttled''
   \<and> DBInstanceArn (db1 (Some ''arn:db-1'')) = Some ''arn:db-1''
   \<and> instanceMetrics failingTagsProvider tags ''us-east-1'' (db1 (Some ''arn:db-1'')) =
       Inr (Log ''Error listing tags for RDS instance arn:db-1 : throttled''
            # newMetrics tags (db1 (Some ''arn:db-1''))
               [''db-1'', ''us-east-1a'', [], ''gp3'', ''us-east-1'', ''db.t3.micro'',
                ''postgres'', [], [], [], []])
   \<and> ListTagsForResource twoRegionProvider ''us-east-1'' (DBInstanceArn (db1 (Some ''arn:db-1'')))
       = Inr [\<lparr>Key = Some ''owner'', Value = Some ''bob''\<rparr>,
              \<lparr>Key = Some ''team'', Value = Some ''core''\<rparr>,
              \<lparr>Key = Some ''Team'', Value = Some ''other''\<rparr>]
   \<and> instanceMetrics twoRegionProvider tags ''us-east-1'' (db1 (Some ''arn:db-1'')) =
       Inr (newMetrics tags (db1 (Some ''arn:db-1''))
               [''db-1'', ''us-east-1a'', [], ''gp3'', ''us-east-1'', ''db.t3.micro'',
                ''postgres'', [], ''core'', [], []])"
proof -
  have base: "baseLabelValues ''us-east-1'' (db1 (Some ''arn:db-1'')) =
     Inr [''db-1'', ''us-east-1a'', [], ''gp3'', ''us-east-1'', ''db.t3.micro'', ''postgres'']"
    by (simp add: baseLabelValues_def seq_def deref_def db1_def)
  have fail: "ListTagsForResource failingTagsProvider ''us-east-1''
      (DBInstanceArn (db1 (Some ''arn:db-1''))) = Inl ''throttled''"
    by (simp add: failingTagsProvider_def)
  have ok: "ListTagsForResource twoRegionProvider ''us-east-1''
      (DBInstanceArn (db1 (Some ''arn:db-1''))) =
        Inr [\<lparr>Key = Some ''owner'', Value = Some ''bob''\<rparr>,
             \<lparr>Key = Some ''team'', Value = Some ''core''\<rparr>,
             \<lparr>Key = Some ''Team'', Value = Some ''other''\<rparr>]"
    by (simp add: twoRegionProvider_def)
  have arn: "DBInstanceArn (db1 (Some ''arn:db-1'')) = Some ''arn:db-1''"
    by (simp add: db1_def)
  show ?thesis
    using tag_fetch_failure_and_matching [OF base, of failingTagsProvider tags]
      tag_fetch_failure_and_matching [OF base, of twoRegionProvider tags]
      base fail ok arn
    by (simp add: tags_def tagSlot_def List.map_filter_simps)
qed

subsection \<open>Auxiliary facts about the collectors and their merge\<close>

lemma seq_Inr [simp]: "seq (Inr v) f = f v" by (simp add: seq_def)
lemma seq_Inl [simp]: "seq (Inl e) f = Inl e" by (simp add: seq_def)

lemma pageMetrics_append:
  "pageMetrics P tgs r (xs @ ys) =
     seq (pageMetrics P tgs r xs) (\<lambda>a. seq (pageMetrics P tgs r ys) (\<lambda>b. Inr (a @ b)))"
  by (induction xs) (auto simp: seq_def split: sum.splits)

lemma collectPages_chain:
  assumes "pageChain P r marker pgs"
    and "pageMetrics P tgs r (concat (map DBInstances pgs)) = Inr es"
  shows "collectPages P tgs r marker acc = collectPages P tgs r (lastMarker marker pgs) (acc @ es)"
  using assms
proof (induction pgs arbitrary: marker acc es)
  case Nil
  then show ?case by simp
next
  case (Cons pg pgs)
  from Cons.prems(2) obtain es1 es2 where
    es1: "pageMetrics P tgs r (DBInstances pg) = Inr es1"
    and es2: "pageMetrics P tgs r (concat (map DBInstances pgs)) = Inr es2"
    and es: "es = es1 @ es2"
    by (auto simp: pageMetrics_append seq_def split: sum.splits)
  from Cons.prems(1) obtain m where pg: "DescribeDBInstances P r marker = Inr pg"
    and m: "Marker pg = Some m" and chain: "pageChain P r (Some m) pgs"
    by auto
  have "collectPages P tgs r marker acc = collectPages P tgs r (Some m) (acc @ es1)"
    by (subst collectPages.simps) (simp add: pg es1 m)
  also have "\<dots> = collectPages P tgs r (lastMarker (Some m) pgs) ((acc @ es1) @ es2)"
    by (rule Cons.IH[OF chain es2])
  finally show ?case by (simp add: es m)
qed

lemma subseq_concat_nth: "i < length qs \<Longrightarrow> subseq (qs ! i) (concat qs)"
proof (induction qs arbitrary: i)
  case Nil then show ?case by simp
next
  case (Cons q qs)
  show ?case
  proof (cases i)
    case 0 then show ?thesis by (simp add: prefix_imp_subseq)
  next
    case (Suc j)
    with Cons have "subseq (qs ! j) (concat qs)" by simp
    then show ?thesis using Suc by (simp add: list_emb_append2)
  qed
qed

lemma subseq_interleave: "i < length qs \<Longrightarrow> subseq (qs ! i) (interleave sched qs)"
proof (induction sched arbitrary: qs)
  case Nil
  then show ?case by (simp add: subseq_concat_nth)
next
  case (Cons j sched)
  show ?case
  proof (cases "j < length qs")
    case False
    with Cons show ?thesis by simp
  next
    case True
    show ?thesis
    proof (cases "qs ! j")
      case Nil
      with True Cons show ?thesis by simp
    next
      case (Cons x rest)
      from Cons.prems have "subseq (qs[j := rest] ! i) (interleave sched (qs[j := rest]))"
        by (intro Cons.IH) simp
      then show ?thesis using True Cons \<open>i < length qs\<close>
        by (cases "i = j") (auto simp: nth_list_update)
    qed
  qed
qed

lemma set_interleave: "set (interleave sched qs) \<subseteq> \<Union> (set ` set qs)"
proof (induction sched arbitrary: qs)
  case Nil
  show ?case by simp
next
  case (Cons j sched)
  show ?case
  proof (cases "j < length qs")
    case False
    with Cons show ?thesis by simp
  next
    case True
    show ?thesis
    proof (cases "qs ! j")
      case Nil
      with True Cons.IH show ?thesis by simp
    next
      case (Cons x rest)
      from True have mem: "qs ! j \<in> set qs" by simp
      have upd: "set (qs[j := rest]) \<subseteq> insert rest (set qs)"
        by (rule set_update_subset_insert)
      have sub: "y \<in> \<Union> (set ` set qs)" if "y \<in> \<Union> (set ` set (qs[j := rest]))" for y
      proof -
        from that obtain q where q: "q \<in> set (qs[j := rest])" "y \<in> set q" by blast
        from q(1) upd have "q = rest \<or> q \<in> set qs" by blast
        then show ?thesis
        proof
          assume "q = rest"
          with q(2) Cons have "y \<in> set (qs ! j)" by simp
          with mem show ?thesis by blast
        next
          assume "q \<in> set qs"
          with q(2) show ?thesis by blast
        qed
      qed
      have x: "x \<in> \<Union> (set ` set qs)"
      proof -
        from Cons have "x \<in> set (qs ! j)" by simp
        with mem show ?thesis by blast
      qed
      have eq: "interleave (j # sched) qs = x # interleave sched (qs[j := rest])"
        using True Cons by simp
      have "set (interleave sched (qs[j := rest])) \<subseteq> \<Union> (set ` set qs)"
        using Cons.IH[of "qs[j := rest]"] sub by blast
      with x show ?thesis unfolding eq by simp
    qed
  qed
qed

lemma subseq_sent: "subseq xs ys \<Longrightarrow> subseq (sent xs) (sent ys)"
proof (induction rule: list_emb.induct)
  case (list_emb_Nil ys) then show ?case by simp
next
  case (list_emb_Cons xs ys y)
  then show ?case by (cases y) auto
next
  case (list_emb_Cons2 x y xs ys)
  then show ?case by (cases y) auto
qed

lemma joinWorkers_Inr:
  "joinWorkers rs = Some (Inr traces) \<Longrightarrow> rs = map (\<lambda>t. Some (Inr t)) traces"
proof (induction rs arbitrary: traces)
  case Nil then show ?case by simp
next
  case (Cons r rs)
  then show ?case
    by (auto split: option.splits sum.splits)
qed

lemma joinWorkers_map: "joinWorkers (map (\<lambda>t. Some (Inr t)) traces) = Some (Inr traces)"
  by (induction traces) simp_all

text \<open>What a run of collector steps leaves in the exporter.\<close>

lemma cache_perform: "cache (perform es e) = cache e @ appended es"
  by (induction es e rule: perform.induct) simp_all

lemma logs_perform: "logs (perform es e) = logs e @ logged es"
  by (induction es e rule: perform.induct) simp_all

lemma lastUpdate_perform: "lastUpdate (perform es e) = lastUpdate e"
  by (induction es e rule: perform.induct) simp_all

lemma sent_no_Send: "(\<forall>x \<in> set es. \<exists>s. x = Log s) \<Longrightarrow> sent es = []"
  by (induction es rule: sent.induct) auto

lemma collectRegionMetrics_first_fails:
  "DescribeDBInstances P r None = Inl err \<Longrightarrow>
    collectRegionMetrics P tgs r =
      Some (Inr [Log (''Couldn't list RDS instances in region '' @ r @ '' : '' @ err)])"
  by (simp add: collectRegionMetrics_def collectPages.simps)

lemma updateCache_run:
  assumes "ListRegions P = Inr regions" and "regionNames regions = Inr names"
    and "collectorsRun P tgs sched names = Some (Inr run)"
  shows "updateCache P tgs sched now e =
    Some (Inr ((perform run e)\<lparr>cache := sent run, lastUpdate := now\<rparr>))"
  using assms by (simp add: updateCache_def collectAll_def)

lemma updateCache_Inr:
  assumes "ListRegions P = Inr regions" and "regionNames regions = Inr names"
    and "updateCache P tgs sched now e = Some (Inr e')"
  shows "\<exists>traces. joinWorkers (map (collectRegionMetrics P tgs) names) = Some (Inr traces)
    \<and> e' = (perform (interleave sched traces) e)\<lparr>cache := sent (interleave sched traces), lastUpdate := now\<rparr>"
  using assms
  by (auto simp: updateCache_def collectAll_def collectorsRun_def split: option.splits sum.splits)

lemma region_subseq_cache:
  assumes "ListRegions P = Inr regions" and "regionNames regions = Inr names"
    and "updateCache P tgs sched now e = Some (Inr e')"
    and "r \<in> set names" and "collectRegionMetrics P tgs r = Some (Inr es)"
  shows "subseq (sent es) (cache e')"
proof -
  from updateCache_Inr[OF assms(1-3)] obtain traces where
    join: "joinWorkers (map (collectRegionMetrics P tgs) names) = Some (Inr traces)"
    and e': "e' = (perform (interleave sched traces) e)\<lparr>cache := sent (interleave sched traces), lastUpdate := now\<rparr>"
    by blast
  from joinWorkers_Inr[OF join]
  have m: "map (collectRegionMetrics P tgs) names = map (\<lambda>t. Some (Inr t)) traces" .
  then have len: "length traces = length names" by (metis length_map)
  from assms(4) obtain i where i: "i < length names" "names ! i = r"
    by (auto simp: in_set_conv_nth)
  from m i len have "collectRegionMetrics P tgs r = Some (Inr (traces ! i))"
    by (metis nth_map)
  with assms(5) have "traces ! i = es" by simp
  with subseq_interleave[of i traces sched] i len
  have "subseq es (interleave sched traces)" by simp
  then show ?thesis by (simp add: e' subseq_sent)
qed

lemmas example_defs = db1_def db2_def db1Labels_def db2Labels_def db1Allocated_def db1Iops_def
  db2Allocated_def db2MaxAllocated_def tags_def

lemmas instance_defs = instanceMetrics_def baseLabelValues_def fetchTags_def deref_def
  newMetrics_def emit_def mapIndex_def float64_def MustNewConstMetric_def Let_def

lemma db1_two: "instanceMetrics twoRegionProvider tags ''us-east-1'' (db1 (Some ''arn:db-1'')) =
   Inr [CacheAppend db1Allocated, Send db1Allocated, CacheAppend db1Iops, Send db1Iops]"
  by (simp add: twoRegionProvider_def instance_defs example_defs)

lemma db2_two: "instanceMetrics twoRegionProvider tags ''eu-west-1'' db2 =
   Inr [CacheAppend db2Allocated, Send db2Allocated, CacheAppend db2MaxAllocated, Send db2MaxAllocated]"
  by (simp add: twoRegionProvider_def instance_defs example_defs)

lemma describe_two:
  "DescribeDBInstances twoRegionProvider ''us-east-1'' None =
     Inr \<lparr>DBInstances = [db1 (Some ''arn:db-1'')], Marker = Some ''page-2''\<rparr>"
  "DescribeDBInstances twoRegionProvider ''us-east-1'' (Some ''page-2'') = Inl ''timeout''"
  "DescribeDBInstances twoRegionProvider ''eu-west-1'' None =
     Inr \<lparr>DBInstances = [db2], Marker = None\<rparr>"
  "ListRegions twoRegionProvider =
     Inr [\<lparr>RegionName = Some ''us-east-1''\<rparr>, \<lparr>RegionName = Some ''eu-west-1''\<rparr>]"
  by (simp_all add: twoRegionProvider_def)

lemma us_two: "collectRegionMetrics twoRegionProvider tags ''us-east-1'' =
   Some (Inr [CacheAppend db1Allocated, Send db1Allocated, CacheAppend db1Iops, Send db1Iops,
     Log ''Couldn't list RDS instances in region us-east-1 : timeout''])"
proof -
  have "collectRegionMetrics twoRegionProvider tags ''us-east-1'' =
      collectPages twoRegionProvider tags ''us-east-1'' (Some ''page-2'')
        [CacheAppend db1Allocated, Send db1Allocated, CacheAppend db1Iops, Send db1Iops]"
    unfolding collectRegionMetrics_def
    by (subst collectPages.simps) (simp add: db1_two describe_two)
  also have "\<dots> = Some (Inr [CacheAppend db1Allocated, Send db1Allocated, CacheAppend db1Iops,
     Send db1Iops, Log ''Couldn't list RDS instances in region us-east-1 : timeout''])"
    by (subst collectPages.simps) (simp add: describe_two)
  finally show ?thesis .
qed

lemma eu_two: "collectRegionMetrics twoRegionProvider tags ''eu-west-1'' =
   Some (Inr [CacheAppend db2Allocated, Send db2Allocated, CacheAppend db2MaxAllocated,
     Send db2MaxAllocated])"
  unfolding collectRegionMetrics_def
  by (subst collectPages.simps) (simp add: db2_two describe_two)

lemma cycle_two:
  "updateCache twoRegionProvider tags [1, 0, 0, 1] 7200000000000 servingExporter =
     Some (Inr \<lparr>cache = [db1Allocated, db2Allocated, db1Iops, db2MaxAllocated],
       cacheTTL = 3600000000000, lastUpdate = 7200000000000,
       logs = [''Couldn't list RDS instances in region us-east-1 : timeout'']\<rparr>)"
  by (simp add: updateCache_def collectAll_def collectorsRun_def us_two eu_two servingExporter_def
      describe_two deref_def)


lemma describe_example:
  "DescribeDBInstances exampleProvider r m =
     Inr \<lparr>DBInstances = [db1 (Some ''arn:db-1'')], Marker = None\<rparr>"
  "ListRegions exampleProvider = Inr [\<lparr>RegionName = Some ''us-east-1''\<rparr>]"
  by (simp_all add: exampleProvider_def)

lemma db1_example:
  "instanceMetrics exampleProvider tags ''us-east-1'' (db1 (Some ''arn:db-1'')) =
     Inr [CacheAppend db1Allocated, Send db1Allocated, CacheAppend db1Iops, Send db1Iops]"
  by (simp add: exampleProvider_def instance_defs example_defs)

lemma us_example: "collectRegionMetrics exampleProvider tags ''us-east-1'' =
   Some (Inr [CacheAppend db1Allocated, Send db1Allocated, CacheAppend db1Iops, Send db1Iops])"
  unfolding collectRegionMetrics_def
  by (subst collectPages.simps) (simp add: db1_example describe_example)

subsection \<open>Pagination, truncation and isolation of regions\<close>

text \<open>
  C8. Let the calls of a region \<open>rA\<close> return the pages \<open>pgs\<close>, each with a marker that
  the next call passes on, and let their instances be processed with the effects \<open>es\<close>.
  If the next call fails, the collector returns with \<open>es\<close> kept and one log line after
  them, without another call. If the next call returns a page without a marker, the
  collector returns after that page. In a cycle that completes, the samples collected in
  \<open>rA\<close> before the failure and all samples of any other region \<open>rB\<close> are in the new
  cache, in the order in which their collector sent them.
\<close>

theorem pagination_truncation_and_isolation:
  assumes "pageChain P rA None pgs"
    and "pageMetrics P tgs rA (concat (map DBInstances pgs)) = Inr es"
  shows "(\<forall>err. DescribeDBInstances P rA (lastMarker None pgs) = Inl err \<longrightarrow>
            collectRegionMetrics P tgs rA =
              Some (Inr (es @ [Log (''Couldn't list RDS instances in region '' @ rA @ '' : '' @ err)])))
       \<and> (\<forall>pg es'. DescribeDBInstances P rA (lastMarker None pgs) = Inr pg \<and> Marker pg = None
              \<and> pageMetrics P tgs rA (DBInstances pg) = Inr es' \<longrightarrow>
            collectRegionMetrics P tgs rA = Some (Inr (es @ es')))
       \<and> (\<forall>err regions names rB esB e'.
            DescribeDBInstances P rA (lastMarker None pgs) = Inl err
              \<and> ListRegions P = Inr regions \<and> regionNames regions = Inr names
              \<and> rA \<in> set names \<and> rB \<in> set names
              \<and> collectRegionMetrics P tgs rB = Some (Inr esB)
              \<and> updateCache P tgs sched now e = Some (Inr e') \<longrightarrow>
            subseq (sent es) (cache e') \<and> subseq (sent esB) (cache e'))"
proof -
  have loop: "collectRegionMetrics P tgs rA = collectPages P tgs rA (lastMarker None pgs) es"
    using collectPages_chain[OF assms, of "[]"] by (simp add: collectRegionMetrics_def)
  have fail: "collectRegionMetrics P tgs rA =
      Some (Inr (es @ [Log (''Couldn't list RDS instances in region '' @ rA @ '' : '' @ err)]))"
    if "DescribeDBInstances P rA (lastMarker None pgs) = Inl err" for err
    unfolding loop by (subst collectPages.simps) (simp add: that)
  have fin: "collectRegionMetrics P tgs rA = Some (Inr (es @ es'))"
    if "DescribeDBInstances P rA (lastMarker None pgs) = Inr pg" "Marker pg = None"
      "pageMetrics P tgs rA (DBInstances pg) = Inr es'" for pg es'
    unfolding loop by (subst collectPages.simps) (simp add: that)
  have iso: "subseq (sent es) (cache e') \<and> subseq (sent esB) (cache e')"
    if "DescribeDBInstances P rA (lastMarker None pgs) = Inl err"
      "ListRegions P = Inr regions" "regionNames regions = Inr names"
      "rA \<in> set names" "rB \<in> set names" "collectRegionMetrics P tgs rB = Some (Inr esB)"
      "updateCache P tgs sched now e = Some (Inr e')" for err regions names rB esB e'
  proof -
    from region_subseq_cache[OF that(2,3,7,4) fail[OF that(1)]]
    have "subseq (sent es) (cache e')" by (simp add: sent_append)
    moreover from region_subseq_cache[OF that(2,3,7,5,6)]
    have "subseq (sent esB) (cache e')" .
    ultimately show ?thesis by simp
  qed
  from fail fin iso show ?thesis by blast
qed

theorem pagination_truncation_and_isolation_witness:
  "pageChain twoRegionProvider ''us-east-1'' None
      [\<lparr>DBInstances = [db1 (Some ''arn:db-1'')], Marker = Some ''page-2''\<rparr>]
   \<and> DescribeDBInstances twoRegionProvider ''us-east-1'' (Some ''page-2'') = Inl ''timeout''
   \<and> collectRegionMetrics twoRegionProvider tags ''us-east-1'' =
       Some (Inr [CacheAppend db1Allocated, Send db1Allocated, CacheAppend db1Iops, Send db1Iops,
         Log ''Couldn't list RDS instances in region us-east-1 : timeout''])
   \<and> collectRegionMetrics twoRegionProvider tags ''eu-west-1'' =
       Some (Inr [CacheAppend db2Allocated, Send db2Allocated, CacheAppend db2MaxAllocated,
         Send db2MaxAllocated])
   \<and> (\<exists>e'. updateCache twoRegionProvider tags [1, 0, 0, 1] 7200000000000 servingExporter =
          Some (Inr e')
        \<and> subseq [db1Allocated, db1Iops] (cache e')
        \<and> subseq [db2Allocated, db2MaxAllocated] (cache e'))"
proof -
  let ?pg = "\<lparr>DBInstances = [db1 (Some ''arn:db-1'')], Marker = Some ''page-2''\<rparr>"
  let ?us = "[CacheAppend db1Allocated, Send db1Allocated, CacheAppend db1Iops, Send db1Iops]"
  let ?eu = "[CacheAppend db2Allocated, Send db2Allocated, CacheAppend db2MaxAllocated,
    Send db2MaxAllocated]"
  have chain: "pageChain twoRegionProvider ''us-east-1'' None [?pg]"
    by (simp add: describe_two)
  have steps: "pageMetrics twoRegionProvider tags ''us-east-1'' (concat (map DBInstances [?pg])) =
      Inr ?us"
    by (simp add: db1_two)
  have fails: "DescribeDBInstances twoRegionProvider ''us-east-1'' (lastMarker None [?pg]) =
      Inl ''timeout''"
    by (simp add: describe_two)
  note us = pagination_truncation_and_isolation [OF chain steps,
      of "[1, 0, 0, 1]" 7200000000000 servingExporter]
  have chain0: "pageChain twoRegionProvider ''eu-west-1'' None []" by simp
  have steps0: "pageMetrics twoRegionProvider tags ''eu-west-1'' (concat (map DBInstances [])) =
      Inr []" by simp
  have last0: "DescribeDBInstances twoRegionProvider ''eu-west-1'' (lastMarker None []) =
      Inr \<lparr>DBInstances = [db2], Marker = None\<rparr>
    \<and> Marker \<lparr>DBInstances = [db2], Marker = None\<rparr> = None
    \<and> pageMetrics twoRegionProvider tags ''eu-west-1''
        (DBInstances \<lparr>DBInstances = [db2], Marker = None\<rparr>) = Inr ?eu"
    by (simp add: describe_two db2_two)
  note eu = pagination_truncation_and_isolation [OF chain0 steps0,
      of "[1, 0, 0, 1]" 7200000000000 servingExporter]
  from us fails have usRun: "collectRegionMetrics twoRegionProvider tags ''us-east-1'' =
      Some (Inr (?us @ [Log (''Couldn't list RDS instances in region '' @ ''us-east-1'' @ '' : ''
        @ ''timeout'')]))"
    by blast
  from eu last0 have euRun: "collectRegionMetrics twoRegionProvider tags ''eu-west-1'' =
      Some (Inr ([] @ ?eu))"
    by blast
  have names: "regionNames [\<lparr>RegionName = Some ''us-east-1''\<rparr>, \<lparr>RegionName = Some ''eu-west-1''\<rparr>]
      = Inr [''us-east-1'', ''eu-west-1'']"
    by (simp add: deref_def)
  from cycle_two obtain e' where
    e': "updateCache twoRegionProvider tags [1, 0, 0, 1] 7200000000000 servingExporter =
      Some (Inr e')"
    by blast
  have in1: "''us-east-1'' \<in> set [''us-east-1'', ''eu-west-1'']" by simp
  have in2: "''eu-west-1'' \<in> set [''us-east-1'', ''eu-west-1'']" by simp
  from us fails describe_two(4) names in1 in2 euRun e'
  have "subseq (sent ?us) (cache e') \<and> subseq (sent ([] @ ?eu)) (cache e')"
    by blast
  then have "subseq [db1Allocated, db1Iops] (cache e')
      \<and> subseq [db2Allocated, db2MaxAllocated] (cache e')"
    by simp
  with e' have "\<exists>e'. updateCache twoRegionProvider tags [1, 0, 0, 1] 7200000000000
        servingExporter = Some (Inr e')
      \<and> subseq [db1Allocated, db1Iops] (cache e')
      \<and> subseq [db2Allocated, db2MaxAllocated] (cache e')"
    by blast
  moreover from fails have "DescribeDBInstances twoRegionProvider ''us-east-1'' (Some ''page-2'')
      = Inl ''timeout''"
    by simp
  moreover from usRun have "collectRegionMetrics twoRegionProvider tags ''us-east-1'' =
       Some (Inr [CacheAppend db1Allocated, Send db1Allocated, CacheAppend db1Iops, Send db1Iops,
         Log ''Couldn't list RDS instances in region us-east-1 : timeout''])"
    by simp
  moreover from euRun have "collectRegionMetrics twoRegionProvider tags ''eu-west-1'' =
       Some (Inr ?eu)"
    by simp
  ultimately show ?thesis using chain by blast
qed

subsection \<open>The replacement of the cache\<close>

text \<open>
  C10. When the enumeration succeeds and the collectors return, the cycle installs the
  samples they sent as the cache and sets the time of the last update to now. When every
  region fails at its first page, the cycle returns with an empty cache and the time of
  the last update set to now, whatever the cache held before.
\<close>

theorem refresh_replaces_cache_unconditionally:
  assumes "ListRegions P = Inr regions" and "regionNames regions = Inr names"
  shows "(\<forall>run. collectorsRun P tgs sched names = Some (Inr run) \<longrightarrow>
            (\<exists>e'. updateCache P tgs sched now e = Some (Inr e')
               \<and> cache e' = sent run \<and> lastUpdate e' = now))
       \<and> ((\<forall>r \<in> set names. \<exists>err. DescribeDBInstances P r None = Inl err) \<longrightarrow>
            (\<exists>e'. updateCache P tgs sched now e = Some (Inr e')
               \<and> cache e' = [] \<and> lastUpdate e' = now))"
proof -
  have a: "\<exists>e'. updateCache P tgs sched now e = Some (Inr e') \<and> cache e' = sent run \<and> lastUpdate e' = now"
    if "collectorsRun P tgs sched names = Some (Inr run)" for run
    using updateCache_run[OF assms that, of now e] by simp
  have b: "\<exists>e'. updateCache P tgs sched now e = Some (Inr e') \<and> cache e' = [] \<and> lastUpdate e' = now"
    if allfail: "\<forall>r \<in> set names. \<exists>err. DescribeDBInstances P r None = Inl err"
  proof -
    define tr where "tr = (\<lambda>r. case collectRegionMetrics P tgs r of Some (Inr t) \<Rightarrow> t | _ \<Rightarrow> [])"
    have each: "collectRegionMetrics P tgs r = Some (Inr (tr r)) \<and> (\<forall>x \<in> set (tr r). \<exists>s. x = Log s)"
      if "r \<in> set names" for r
    proof -
      from allfail that obtain err where "DescribeDBInstances P r None = Inl err" by blast
      from collectRegionMetrics_first_fails[OF this, of tgs] show ?thesis
        by (simp add: tr_def)
    qed
    then have "map (collectRegionMetrics P tgs) names = map (\<lambda>t. Some (Inr t)) (map tr names)"
      by simp
    then have "joinWorkers (map (collectRegionMetrics P tgs) names) = Some (Inr (map tr names))"
      by (simp only: joinWorkers_map)
    then have run: "collectorsRun P tgs sched names = Some (Inr (interleave sched (map tr names)))"
      by (simp add: collectorsRun_def)
    have "\<forall>x \<in> set (interleave sched (map tr names)). \<exists>s. x = Log s"
      using set_interleave[of sched "map tr names"] each by fastforce
    then have "sent (interleave sched (map tr names)) = []" by (rule sent_no_Send)
    with a[OF run] show ?thesis by simp
  qed
  from a b show ?thesis by blast
qed

theorem refresh_replaces_cache_unconditionally_witness:
  "ListRegions failingPagesProvider =
     Inr [\<lparr>RegionName = Some ''us-east-1''\<rparr>, \<lparr>RegionName = Some ''eu-west-1''\<rparr>]
   \<and> regionNames [\<lparr>RegionName = Some ''us-east-1''\<rparr>, \<lparr>RegionName = Some ''eu-west-1''\<rparr>] =
       Inr [''us-east-1'', ''eu-west-1'']
   \<and> DescribeDBInstances failingPagesProvider ''us-east-1'' None = Inl ''timeout''
   \<and> DescribeDBInstances failingPagesProvider ''eu-west-1'' None = Inl ''timeout''
   \<and> cache servingExporter = [oldMetric]
   \<and> (\<exists>e'. updateCache failingPagesProvider tags [1, 0] 7200000000000 servingExporter =
          Some (Inr e')
        \<and> cache e' = [] \<and> lastUpdate e' = 7200000000000)
   \<and> collectorsRun twoRegionProvider tags [1, 0, 0, 1] [''us-east-1'', ''eu-west-1''] =
       Some (Inr [CacheAppend db2Allocated, CacheAppend db1Allocated, Send db1Allocated,
         Send db2Allocated, CacheAppend db1Iops, Send db1Iops,
         Log ''Couldn't list RDS instances in region us-east-1 : timeout'',
         CacheAppend db2MaxAllocated, Send db2MaxAllocated])
   \<and> (\<exists>e'. updateCache twoRegionProvider tags [1, 0, 0, 1] 7200000000000 servingExporter =
          Some (Inr e')
        \<and> cache e' = [db1Allocated, db2Allocated, db1Iops, db2MaxAllocated]
        \<and> lastUpdate e' = 7200000000000)"
proof -
  have regions: "ListRegions failingPagesProvider =
     Inr [\<lparr>RegionName = Some ''us-east-1''\<rparr>, \<lparr>RegionName = Some ''eu-west-1''\<rparr>]"
    by (simp add: failingPagesProvider_def twoRegionProvider_def)
  have names: "regionNames [\<lparr>RegionName = Some ''us-east-1''\<rparr>, \<lparr>RegionName = Some ''eu-west-1''\<rparr>]
      = Inr [''us-east-1'', ''eu-west-1'']"
    by (simp add: deref_def)
  have allfail: "\<forall>r \<in> set [''us-east-1'', ''eu-west-1''].
         \<exists>err. DescribeDBInstances failingPagesProvider r None = Inl err"
    by (simp add: failingPagesProvider_def)
  have run: "collectorsRun twoRegionProvider tags [1, 0, 0, 1] [''us-east-1'', ''eu-west-1''] =
       Some (Inr [CacheAppend db2Allocated, CacheAppend db1Allocated, Send db1Allocated,
         Send db2Allocated, CacheAppend db1Iops, Send db1Iops,
         Log ''Couldn't list RDS instances in region us-east-1 : timeout'',
         CacheAppend db2MaxAllocated, Send db2MaxAllocated])"
    by (simp add: collectorsRun_def us_two eu_two)
  have old: "cache servingExporter = [oldMetric]"
    by (simp add: servingExporter_def)
  from refresh_replaces_cache_unconditionally [OF regions names,
      of tags "[1, 0]" 7200000000000 servingExporter] allfail
  have a: "\<exists>e'. updateCache failingPagesProvider tags [1, 0] 7200000000000 servingExporter =
          Some (Inr e') \<and> cache e' = [] \<and> lastUpdate e' = 7200000000000"
    by blast
  from refresh_replaces_cache_unconditionally [OF describe_two(4) names,
      of tags "[1, 0, 0, 1]" 7200000000000 servingExporter] run
  have b: "\<exists>e'. updateCache twoRegionProvider tags [1, 0, 0, 1] 7200000000000 servingExporter =
          Some (Inr e')
        \<and> cache e' = [db1Allocated, db2Allocated, db1Iops, db2MaxAllocated]
        \<and> lastUpdate e' = 7200000000000"
    by simp
  have us: "DescribeDBInstances failingPagesProvider ''us-east-1'' None = Inl ''timeout''"
    by (simp add: failingPagesProvider_def)
  have eu: "DescribeDBInstances failingPagesProvider ''eu-west-1'' None = Inl ''timeout''"
    by (simp add: failingPagesProvider_def)
  from regions names us eu old a run b show ?thesis by blast
qed

subsection \<open>Writes to the cache while a cycle is in flight\<close>

text \<open>
  C1. One region with the instance \<open>db-1\<close>, and a cache that holds one sample: when the
  collectors have finished and the swap of line 125 has not happened yet, the cache of
  the exporter already holds the old sample followed by the two new ones.
\<close>

theorem collectors_append_to_live_cache:
  "collectAll exampleProvider tags [] [''us-east-1''] servingExporter =
     Some (Inr (servingExporter\<lparr>cache := [oldMetric, db1Allocated, db1Iops]\<rparr>,
                [db1Allocated, db1Iops]))
   \<and> cache servingExporter = [oldMetric]"
  by (simp add: collectAll_def collectorsRun_def us_example servingExporter_def)

text \<open>
  C2. In the same cycle, a scrape that runs after the first step of the collector is sent
  the old sample and one new sample: neither the list before the cycle nor the list the
  cycle installs.
\<close>

theorem scrape_during_refresh_sees_partial_list:
  "map_option (map_sum id (\<lambda>e. fst (Collect_rds 7200000000000 e)))
      (inFlight exampleProvider tags [] [''us-east-1''] 1 servingExporter) =
     Some (Inr [oldMetric, db1Allocated])
   \<and> cache servingExporter = [oldMetric]
   \<and> map_option (map_sum id cache)
        (updateCache exampleProvider tags [] 7200000000000 servingExporter) =
     Some (Inr [db1Allocated, db1Iops])"
  by (simp add: inFlight_def updateCache_def collectAll_def collectorsRun_def us_example
      servingExporter_def Collect_rds_def describe_example deref_def)

subsection \<open>Refresh cycles and the mutex updateMu\<close>

lemma count_update_Running:
  "i < length xs \<Longrightarrow> xs ! i \<noteq> Running \<Longrightarrow>
     length (filter (\<lambda>p. p = Running) (xs[i := Running])) = Suc (length (filter (\<lambda>p. p = Running) xs))"
proof (induction xs arbitrary: i)
  case Nil then show ?case by simp
next
  case (Cons x xs) then show ?case by (cases i) auto
qed

lemma count_update_Finished:
  "i < length xs \<Longrightarrow> xs ! i = Running \<Longrightarrow>
     Suc (length (filter (\<lambda>p. p = Running) (xs[i := Finished]))) = length (filter (\<lambda>p. p = Running) xs)"
proof (induction xs arbitrary: i)
  case Nil then show ?case by simp
next
  case (Cons x xs) then show ?case by (cases i) auto
qed

lemma fire_exclusive:
  assumes "exclusive s" and "fire P tgs a s = Some s'"
  shows "exclusive s'"
proof (cases a)
  case (Scrape now)
  with assms show ?thesis
    by (cases "snd (Collect_rds now (exporterOf s))") (auto simp: exclusive_def running_def)
next
  case (Lock i)
  with assms show ?thesis
    by (auto simp: exclusive_def running_def count_update_Running split: if_splits)
next
  case (Unlock i sched now)
  with assms obtain e' where i: "i < length (routines s)" "routines s ! i = Running"
    and s': "s' = s\<lparr>exporterOf := e', updateMu := False, routines := (routines s)[i := Finished]\<rparr>"
    by (auto split: if_splits option.splits sum.splits)
  from count_update_Finished[OF i] assms(1) show ?thesis
    by (auto simp: exclusive_def running_def s' split: if_splits)
qed

lemma execute_exclusive:
  "exclusive s \<Longrightarrow> execute P tgs acts s = Some s' \<Longrightarrow> exclusive s'"
proof (induction acts arbitrary: s)
  case Nil then show ?case by simp
next
  case (Cons a acts)
  then show ?case by (auto split: option.splits dest: fire_exclusive)
qed

lemma initial_exclusive: "exclusive (initial ttl)"
  by (simp add: exclusive_def running_def initial_def)

lemma running_exists:
  assumes "running s = 1"
  shows "\<exists>j < length (routines s). routines s ! j = Running"
proof -
  from assms have "filter (\<lambda>p. p = Running) (routines s) \<noteq> []"
    by (auto simp: running_def)
  then obtain p where "p \<in> set (routines s)" "p = Running"
    by (auto simp: filter_empty_conv)
  then show ?thesis by (auto simp: in_set_conv_nth)
qed

lemma waiting_takes_lock:
  assumes ex: "exclusive s" and i: "i < length (routines s)" "routines s ! i = Waiting"
    and ret: "updateCache P tgs sched now (exporterOf s) = Some (Inr e')"
  shows "\<exists>acts' s'. execute P tgs acts' s = Some s' \<and> routines s' ! i = Running \<and> running s' = 1"
proof (cases "updateMu s")
  case False
  let ?s' = "s\<lparr>updateMu := True, routines := (routines s)[i := Running]\<rparr>"
  from False i have run: "execute P tgs [Lock i] s = Some ?s'" by simp
  from execute_exclusive[OF ex run] have "running ?s' = 1" by (simp add: exclusive_def)
  moreover from i have "routines ?s' ! i = Running" by simp
  ultimately show ?thesis using run by blast
next
  case True
  with ex have "running s = 1" by (simp add: exclusive_def)
  then obtain j where j: "j < length (routines s)" "routines s ! j = Running"
    using running_exists by blast
  with i have ij: "i \<noteq> j" by auto
  let ?s1 = "s\<lparr>exporterOf := e', updateMu := False, routines := (routines s)[j := Finished]\<rparr>"
  let ?s2 = "?s1\<lparr>updateMu := True, routines := (routines ?s1)[i := Running]\<rparr>"
  from j ret have f1: "fire P tgs (Unlock j sched now) s = Some ?s1" by simp
  from i ij have f2: "fire P tgs (Lock i) ?s1 = Some ?s2" by simp
  from f1 f2 have run: "execute P tgs [Unlock j sched now, Lock i] s = Some ?s2" by simp
  from execute_exclusive[OF ex run] have "running ?s2 = 1" by (simp add: exclusive_def)
  moreover from i have "routines ?s2 ! i = Running" by simp
  ultimately show ?thesis using run by blast
qed

lemma cycle_example:
  "updateCache exampleProvider tags [] now (NewRDSExporter ttl) =
     Some (Inr \<lparr>cache = [db1Allocated, db1Iops], cacheTTL = ttl, lastUpdate = now, logs = []\<rparr>)"
  by (simp add: updateCache_def collectAll_def collectorsRun_def us_example describe_example
      deref_def NewRDSExporter_def)

lemma stale_at_start:
  "snd (Collect_rds 1700000000000000000 (NewRDSExporter 3600000000000))"
  by (simp add: Collect_rds_def NewRDSExporter_def Since_def zeroTime_def)

text \<open>
  C3. In every state the process reaches, at most one goroutine is between
  \<open>updateMu.Lock()\<close> and the deferred \<open>Unlock\<close>. A stale scrape starts a goroutine
  whether or not a cycle is running; it waits in \<open>Lock\<close>, and when the running cycle
  returns it can take the mutex and run a cycle of its own.
\<close>

theorem refresh_cycles_exclusive_and_queued:
  assumes "execute P tgs acts (initial ttl) = Some s"
  shows "running s \<le> 1
    \<and> (\<forall>now. snd (Collect_rds now (exporterOf s)) \<longrightarrow>
          fire P tgs (Scrape now) s = Some (s\<lparr>routines := routines s @ [Waiting]\<rparr>))
    \<and> (\<forall>i sched now e'.
          i < length (routines s) \<and> routines s ! i = Waiting
            \<and> updateCache P tgs sched now (exporterOf s) = Some (Inr e') \<longrightarrow>
          (\<exists>acts' s'. execute P tgs acts' s = Some s' \<and> routines s' ! i = Running
             \<and> running s' = 1))"
proof -
  from execute_exclusive[OF initial_exclusive assms] have ex: "exclusive s" .
  then have "running s \<le> 1" by (simp add: exclusive_def)
  moreover have "\<forall>now. snd (Collect_rds now (exporterOf s)) \<longrightarrow>
      fire P tgs (Scrape now) s = Some (s\<lparr>routines := routines s @ [Waiting]\<rparr>)"
    by simp
  moreover have "\<forall>i sched now e'.
          i < length (routines s) \<and> routines s ! i = Waiting
            \<and> updateCache P tgs sched now (exporterOf s) = Some (Inr e') \<longrightarrow>
          (\<exists>acts' s'. execute P tgs acts' s = Some s' \<and> routines s' ! i = Running
             \<and> running s' = 1)"
    using waiting_takes_lock[OF ex] by blast
  ultimately show ?thesis by blast
qed

theorem refresh_cycles_exclusive_and_queued_witness:
  "execute exampleProvider tags [Scrape 1700000000000000000, Lock 0, Scrape 1700000000000000000]
      (initial 3600000000000) =
     Some \<lparr>exporterOf = NewRDSExporter 3600000000000, updateMu = True,
            routines = [Running, Waiting]\<rparr>
   \<and> running \<lparr>exporterOf = NewRDSExporter 3600000000000, updateMu = True,
            routines = [Running, Waiting]\<rparr> \<le> 1
   \<and> snd (Collect_rds 1700000000000000000 (NewRDSExporter 3600000000000))
   \<and> fire exampleProvider tags (Scrape 1700000000000000000)
       \<lparr>exporterOf = NewRDSExporter 3600000000000, updateMu = True,
         routines = [Running, Waiting]\<rparr> =
     Some \<lparr>exporterOf = NewRDSExporter 3600000000000, updateMu = True,
            routines = [Running, Waiting, Waiting]\<rparr>
   \<and> updateCache exampleProvider tags [] 1700000001000000000 (NewRDSExporter 3600000000000) =
     Some (Inr \<lparr>cache = [db1Allocated, db1Iops], cacheTTL = 3600000000000,
       lastUpdate = 1700000001000000000, logs = []\<rparr>)
   \<and> (\<exists>acts' s'.
        execute exampleProvider tags acts'
          \<lparr>exporterOf = NewRDSExporter 3600000000000, updateMu = True,
            routines = [Running, Waiting]\<rparr> = Some s'
        \<and> routines s' ! 1 = Running \<and> running s' = 1)"
proof -
  let ?s = "\<lparr>exporterOf = NewRDSExporter 3600000000000, updateMu = True,
            routines = [Running, Waiting]\<rparr>"
  have run: "execute exampleProvider tags
      [Scrape 1700000000000000000, Lock 0, Scrape 1700000000000000000] (initial 3600000000000) =
      Some ?s"
    by (simp add: initial_def stale_at_start)
  note inst = refresh_cycles_exclusive_and_queued [OF run]
  from inst have one: "running ?s \<le> 1" by blast
  from inst stale_at_start
  have queued: "fire exampleProvider tags (Scrape 1700000000000000000) ?s =
      Some (?s\<lparr>routines := routines ?s @ [Waiting]\<rparr>)"
    by simp
  have w: "(1::nat) < length (routines ?s) \<and> routines ?s ! 1 = Waiting
      \<and> updateCache exampleProvider tags [] 1700000001000000000 (exporterOf ?s) =
        Some (Inr \<lparr>cache = [db1Allocated, db1Iops], cacheTTL = 3600000000000,
          lastUpdate = 1700000001000000000, logs = []\<rparr>)"
    by (simp add: cycle_example)
  with inst have later: "\<exists>acts' s'. execute exampleProvider tags acts' ?s = Some s'
      \<and> routines s' ! 1 = Running \<and> running s' = 1"
    by blast
  from run one stale_at_start queued cycle_example[of 1700000001000000000 3600000000000] later
  show ?thesis by simp
qed

text \<open>
  A scrape while the first cycle runs finds the cache stale and starts a second
  goroutine; after the first cycle has installed its samples, the second goroutine takes
  the mutex and is inside a cycle of its own.
\<close>

theorem refresh_request_while_running_is_queued:
  "execute exampleProvider tags [Scrape 1700000000000000000, Lock 0] (initial 3600000000000) =
     Some \<lparr>exporterOf = NewRDSExporter 3600000000000, updateMu = True, routines = [Running]\<rparr>
   \<and> fire exampleProvider tags (Scrape 1700000000000000000)
       \<lparr>exporterOf = NewRDSExporter 3600000000000, updateMu = True, routines = [Running]\<rparr> =
     Some \<lparr>exporterOf = NewRDSExporter 3600000000000, updateMu = True,
            routines = [Running, Waiting]\<rparr>
   \<and> execute exampleProvider tags [Unlock 0 [] 1700000001000000000, Lock 1]
       \<lparr>exporterOf = NewRDSExporter 3600000000000, updateMu = True,
         routines = [Running, Waiting]\<rparr> =
     Some \<lparr>exporterOf = \<lparr>cache = [db1Allocated, db1Iops], cacheTTL = 3600000000000,
              lastUpdate = 1700000001000000000, logs = []\<rparr>,
            updateMu = True, routines = [Finished, Running]\<rparr>"
  by (simp add: initial_def stale_at_start cycle_example)

end
